theory Spec2Isabelle
  imports Main "HOL-Library.Word"
begin

section \<open>psbmon: poll, dedupe, deliver\<close>

text \<open>
  A shallow embedding of \<^verbatim>\<open>main.go\<close>. The program talks to three outside parties:
  the paste feed (HTTP), the SQLite file \<^verbatim>\<open>pastes.db\<close>, and the downstream host
  (HTTP). What they answer is not decided by the program, so it is an input of the model
  (the record \<open>env\<close>); what the program does to them is the state (the record
  \<open>world\<close>), passed through every function and returned updated.
\<close>

subsection \<open>Errors and panics\<close>

text \<open>
  A Go \<^verbatim>\<open>error\<close> is a value with a message. \<^verbatim>\<open>sql.ErrNoRows\<close> is the one error the
  program compares by identity (line 193); every other error is only tested against nil
  or read through \<^verbatim>\<open>Error()\<close> (line 280), so it is modelled by its message.
\<close>

datatype error = ErrNoRows | Err string

fun Error :: "error \<Rightarrow> string" where
  "Error ErrNoRows = ''sql: no rows in result set''"
| "Error (Err m) = m"

text \<open>
  A run-time panic is not an error value: it unwinds through every caller (nothing in
  the program recovers) and ends the process. A function that can panic returns an
  \<open>outcome\<close>.
\<close>

datatype panic = NilDereference | IndexOutOfRange

datatype 'a outcome = Panic panic | Return 'a

subsection \<open>Data\<close>

text \<open>
  \<^verbatim>\<open>type ID struct { ID string; Tags string; Date int }\<close>, with \<^verbatim>\<open>int\<close> the 64-bit
  signed integer of the usual platforms (a word read through \<open>sint\<close>), and
  \<^verbatim>\<open>type Pastes struct { Data []ID }\<close>.
  A nil slice and an empty slice are both the empty list: the program only ranges over
  slices and appends to them, which does not tell them apart.
\<close>

record ID =
  ID :: string
  Tags :: string
  Date :: "64 word"

record Pastes =
  Data :: "ID list"

text \<open>
  JSON documents are modelled by their syntax tree, not by their bytes. A number
  literal is \<open>JInt\<close> when it is written as an integer (no fraction, no exponent) and
  \<open>JReal\<close>, holding the literal, otherwise. The members of an object are in the order
  written.
\<close>

datatype json =
    JNull
  | JBool bool
  | JInt int
  | JReal string
  | JStr string
  | JArr "json list"
  | JObj "(string \<times> json) list"

text \<open>
  What \<^verbatim>\<open>ioutil.ReadAll(res.Body)\<close> gives: a read error, or the whole body, which is
  either not a JSON text at all (with the syntax error of the decoder) or a JSON
  document.
\<close>

datatype content = Malformed string | Document json

datatype body = ReadError string | Bytes content

record response =
  StatusCode :: int
  Body :: body

text \<open>The lines the program writes to its log (and, for two of them, to stdout).\<close>

datatype log_line =
    HTTPRequestError error          \<comment> \<open>line 124\<close>
  | Retry502 nat                    \<comment> \<open>line 127\<close>
  | Printed error                   \<comment> \<open>line 137\<close>
  | CheckingForUpdates              \<comment> \<open>line 265\<close>
  | DailyError error                \<comment> \<open>line 269\<close>
  | QueryFailed string "error option"  \<comment> \<open>line 276\<close>
  | SaveFailed error                \<comment> \<open>line 281\<close>
  | SendFailed error                \<comment> \<open>line 288\<close>

subsection \<open>The outside world\<close>

text \<open>
  \<open>env\<close> holds the answers of the outside parties, each indexed by the number of
  calls made to that party before:
  \<^item> \<open>feed n\<close>: the pair \<^verbatim>\<open>(res, err)\<close> that the \<open>n\<close>-th \<^verbatim>\<open>client.Do\<close> of
    \<^verbatim>\<open>getDaily\<close> returns;
  \<^item> \<open>downstream n\<close>: the error, if any, of the \<open>n\<close>-th \<^verbatim>\<open>client.Do\<close> of \<^verbatim>\<open>post\<close>;
  \<^item> \<open>db_fault n\<close>: the message of the storage fault, if any, that the \<open>n\<close>-th call
    into the database driver hits (prepare, begin, query, exec, commit, rollback);
  \<^item> \<open>url_ok u\<close>: whether \<^verbatim>\<open>http.NewRequest\<close> accepts the URL \<open>u\<close>.
\<close>

record env =
  feed :: "nat \<Rightarrow> response option \<times> error option"
  downstream :: "nat \<Rightarrow> error option"
  db_fault :: "nat \<Rightarrow> string option"
  url_ok :: "string \<Rightarrow> bool"

text \<open>
  \<open>world\<close> is what the program has done so far: the rows of table \<^verbatim>\<open>pastes\<close>
  (\<^verbatim>\<open>id INTEGER PRIMARY KEY, paste_ID VARCHAR(255) NOT NULL UNIQUE\<close>), the number of
  driver calls and of feed requests made, the POST requests issued to the downstream
  host (URL and JSON payload, oldest first), and the log.
\<close>

record world =
  pastes :: "(nat \<times> string) list"
  db_calls :: nat
  feed_calls :: nat
  posts :: "(string \<times> json) list"
  logs :: "log_line list"

definition log :: "log_line \<Rightarrow> world \<Rightarrow> world" where
  "log l w = w\<lparr>logs := logs w @ [l]\<rparr>"

definition paste_IDs :: "world \<Rightarrow> string list" where
  "paste_IDs w = map snd (pastes w)"

subsection \<open>The database driver\<close>

text \<open>One call into the driver: it consumes one slot of \<open>db_fault\<close>.\<close>

definition driver :: "env \<Rightarrow> world \<Rightarrow> error option \<times> world" where
  "driver env w =
     (map_option Err (db_fault env (db_calls w)), w\<lparr>db_calls := Suc (db_calls w)\<rparr>)"

text \<open>
  \<^verbatim>\<open>stmt.QueryRow(id)\<close> followed by \<^verbatim>\<open>row.Scan(&rowid)\<close> for
  \<^verbatim>\<open>SELECT id FROM pastes WHERE paste_ID=?\<close>: a fault, \<^verbatim>\<open>sql.ErrNoRows\<close> when no row
  matches, nil when one does.
\<close>

definition Scan :: "env \<Rightarrow> world \<Rightarrow> string \<Rightarrow> error option \<times> world" where
  "Scan env w i =
     (case driver env w of
        (Some e, w') \<Rightarrow> (Some e, w')
      | (None, w') \<Rightarrow>
          (if i \<in> set (paste_IDs w') then (None, w') else (Some ErrNoRows, w')))"

definition unique_violation :: string where
  "unique_violation = ''UNIQUE constraint failed: pastes.paste_ID''"

text \<open>
  \<^verbatim>\<open>tx.Stmt(stmt).Exec(pasteID)\<close> for \<^verbatim>\<open>INSERT INTO pastes(paste_ID) VALUES(?)\<close>: a
  fault, the uniqueness violation when the value is already in the column, or the new
  row, pending until the transaction commits. The row id SQLite generates is one more
  than the largest in the table.
\<close>

definition next_rowid :: "(nat \<times> string) list \<Rightarrow> nat" where
  "next_rowid rows = Suc (foldr max (map fst rows) 0)"

definition Exec :: "env \<Rightarrow> world \<Rightarrow> string \<Rightarrow> (error + nat \<times> string) \<times> world" where
  "Exec env w pasteID =
     (case driver env w of
        (Some e, w') \<Rightarrow> (Inl e, w')
      | (None, w') \<Rightarrow>
          (if pasteID \<in> set (paste_IDs w') then (Inl (Err unique_violation), w')
           else (Inr (next_rowid (pastes w'), pasteID), w')))"

text \<open>
  \<^verbatim>\<open>tx.Commit()\<close> of a transaction holding one pending row: the row reaches the table
  unless the commit itself hits a fault. The program drops the error of
  \<^verbatim>\<open>Commit\<close> and of \<^verbatim>\<open>Rollback\<close> (lines 174 and 177), so neither returns one here.
\<close>

definition Commit :: "env \<Rightarrow> world \<Rightarrow> nat \<times> string \<Rightarrow> world" where
  "Commit env w row =
     (case driver env w of
        (Some e, w') \<Rightarrow> w'
      | (None, w') \<Rightarrow> w'\<lparr>pastes := pastes w' @ [row]\<rparr>)"

definition Rollback :: "env \<Rightarrow> world \<Rightarrow> world" where
  "Rollback env w = snd (driver env w)"

subsection \<open>The ledger: \<^verbatim>\<open>addID\<close> and \<^verbatim>\<open>checkID\<close>\<close>

definition addID :: "env \<Rightarrow> world \<Rightarrow> string \<Rightarrow> error option \<times> world" where
  "addID env w pasteID =
     (case driver env w of                               \<comment> \<open>\<^verbatim>\<open>db.Prepare\<close>\<close>
        (Some e, w1) \<Rightarrow> (Some e, w1)
      | (None, w1) \<Rightarrow>
          (case driver env w1 of                          \<comment> \<open>\<^verbatim>\<open>db.Begin\<close>\<close>
             (Some e, w2) \<Rightarrow> (Some e, w2)
           | (None, w2) \<Rightarrow>
               (case Exec env w2 pasteID of
                  (Inl e, w3) \<Rightarrow> (Some e, Rollback env w3)
                | (Inr row, w3) \<Rightarrow> (None, Commit env w3 row))))"

definition checkID :: "env \<Rightarrow> world \<Rightarrow> string \<Rightarrow> (bool \<times> error option) \<times> world" where
  "checkID env w i =
     (case driver env w of                               \<comment> \<open>\<^verbatim>\<open>db.Prepare\<close>\<close>
        (Some e, w1) \<Rightarrow> ((False, Some e), w1)
      | (None, w1) \<Rightarrow>
          (case Scan env w1 i of
             (err, w2) \<Rightarrow>
               (if err \<noteq> None \<and> err \<noteq> Some ErrNoRows then ((False, err), w2)
                else ((True, None), w2))))"

subsection \<open>The forwarder: \<^verbatim>\<open>post\<close> and \<^verbatim>\<open>send\<close>\<close>

text \<open>
  \<^verbatim>\<open>post\<close> drops the error of \<^verbatim>\<open>http.NewRequest\<close> (line 201 overwritten at 206), so
  for a URL the library rejects \<^verbatim>\<open>req\<close> is nil and \<^verbatim>\<open>req.Header.Set\<close> panics. Otherwise
  one request is issued and the error of \<^verbatim>\<open>client.Do\<close> is returned; the response is
  not looked at.
\<close>

definition post :: "env \<Rightarrow> world \<Rightarrow> json \<Rightarrow> string \<Rightarrow> error option outcome \<times> world" where
  "post env w payload url =
     (if url_ok env url
      then (Return (downstream env (length (posts w))), w\<lparr>posts := posts w @ [(url, payload)]\<rparr>)
      else (Panic NilDereference, w))"

text \<open>
  \<^verbatim>\<open>json.Marshal\<close> of a string is the JSON string and has no error; the branch of line
  216 is dead.
\<close>

definition send :: "env \<Rightarrow> world \<Rightarrow> ID \<Rightarrow> string \<Rightarrow> error option outcome \<times> world" where
  "send env w i host = post env w (JStr (ID i)) (host @ ''/event'')"

subsection \<open>Decoding the feed's answer: \<^verbatim>\<open>json.Unmarshal(body, &tempSlice)\<close>\<close>

text \<open>
  The decoder of \<^verbatim>\<open>encoding/json\<close>, for the one target type the program uses,
  \<^verbatim>\<open>[][]ID\<close>, which starts as nil:
  \<^item> into a slice: an array decodes element by element into fresh elements, \<^verbatim>\<open>null\<close>
    gives the nil slice, anything else is a type error;
  \<^item> into the struct \<^verbatim>\<open>ID\<close>: an object decodes member by member in the order
    written, \<^verbatim>\<open>null\<close> leaves the struct as it is, anything else is a type error;
  \<^item> a member is matched to the field tagged \<^verbatim>\<open>id\<close>, \<^verbatim>\<open>tags\<close> or \<^verbatim>\<open>date\<close> under
    Unicode simple case folding, and skipped when it matches none;
  \<^item> into a string field: a string; into the \<^verbatim>\<open>int\<close> field: an integer literal in
    the 64-bit range; \<^verbatim>\<open>null\<close> leaves the field as it is; anything else is a type
    error.
  The library keeps decoding after a type error and returns the first one at the end;
  the program discards the decoded value whenever an error is returned (line 146), so
  the model stops at the first. The message of a type error is abbreviated: no branch
  of the program reads it.

  A member name is a string of UTF-8 bytes. Two names match when they are equal rune by
  rune up to simple case folding. The runes that fold onto an ASCII letter are that
  letter in its other case and, for \<^verbatim>\<open>s\<close> and \<^verbatim>\<open>k\<close> only, U+017F (the bytes C5 BF) and
  U+212A (the bytes E2 84 AA); both bytes C5 and E2 only ever start a rune. So
  \<open>fold_name\<close> maps every rune that folds onto an ASCII letter to the lower-case letter
  and leaves every other byte alone, and a member matches a field when the folded name
  is the field's (lower-case ASCII) tag.
\<close>

definition type_error :: error where
  "type_error = Err ''json: cannot unmarshal''"

definition lower :: "char \<Rightarrow> char" where
  "lower c =
     (let n = (of_char c :: nat) in if 65 \<le> n \<and> n \<le> 90 then char_of (n + 32) else c)"

fun fold_name :: "string \<Rightarrow> string" where
  "fold_name (a # b # c # cs) =
     (if a = CHR 0xC5 \<and> b = CHR 0xBF then CHR ''s'' # fold_name (c # cs)
      else if a = CHR 0xE2 \<and> b = CHR 0x84 \<and> c = CHR 0xAA then CHR ''k'' # fold_name cs
      else lower a # fold_name (b # c # cs))"
| "fold_name [a, b] =
     (if a = CHR 0xC5 \<and> b = CHR 0xBF then [CHR ''s''] else lower a # fold_name [b])"
| "fold_name [a] = [lower a]"
| "fold_name [] = []"

definition into_string :: "json \<Rightarrow> string \<Rightarrow> error + string" where
  "into_string j cur =
     (case j of JStr s \<Rightarrow> Inr s | JNull \<Rightarrow> Inr cur | _ \<Rightarrow> Inl type_error)"

definition into_int :: "json \<Rightarrow> 64 word \<Rightarrow> error + 64 word" where
  "into_int j cur =
     (case j of
        JInt n \<Rightarrow>
          (if - (2 ^ 63) \<le> n \<and> n < 2 ^ 63 then Inr (word_of_int n) else Inl type_error)
      | JNull \<Rightarrow> Inr cur
      | _ \<Rightarrow> Inl type_error)"

definition member_into :: "string \<times> json \<Rightarrow> ID \<Rightarrow> error + ID" where
  "member_into m r =
     (let key = fold_name (fst m) in
      if key = ''id'' then
        (case into_string (snd m) (ID r) of Inl e \<Rightarrow> Inl e | Inr s \<Rightarrow> Inr (r\<lparr>ID := s\<rparr>))
      else if key = ''tags'' then
        (case into_string (snd m) (Tags r) of Inl e \<Rightarrow> Inl e | Inr s \<Rightarrow> Inr (r\<lparr>Tags := s\<rparr>))
      else if key = ''date'' then
        (case into_int (snd m) (Date r) of Inl e \<Rightarrow> Inl e | Inr d \<Rightarrow> Inr (r\<lparr>Date := d\<rparr>))
      else Inr r)"

fun object_into :: "(string \<times> json) list \<Rightarrow> ID \<Rightarrow> error + ID" where
  "object_into [] r = Inr r"
| "object_into (m # ms) r =
     (case member_into m r of Inl e \<Rightarrow> Inl e | Inr r' \<Rightarrow> object_into ms r')"

definition zero_ID :: ID where
  "zero_ID = \<lparr>ID = [], Tags = [], Date = 0\<rparr>"

definition decode_ID :: "json \<Rightarrow> error + ID" where
  "decode_ID j =
     (case j of
        JObj ms \<Rightarrow> object_into ms zero_ID
      | JNull \<Rightarrow> Inr zero_ID
      | _ \<Rightarrow> Inl type_error)"

fun decode_elements :: "(json \<Rightarrow> error + 'a) \<Rightarrow> json list \<Rightarrow> error + 'a list" where
  "decode_elements f [] = Inr []"
| "decode_elements f (j # js) =
     (case f j of
        Inl e \<Rightarrow> Inl e
      | Inr x \<Rightarrow> (case decode_elements f js of Inl e \<Rightarrow> Inl e | Inr xs \<Rightarrow> Inr (x # xs)))"

definition decode_slice :: "(json \<Rightarrow> error + 'a) \<Rightarrow> json \<Rightarrow> error + 'a list" where
  "decode_slice f j =
     (case j of
        JArr js \<Rightarrow> decode_elements f js
      | JNull \<Rightarrow> Inr []
      | _ \<Rightarrow> Inl type_error)"

definition Unmarshal :: "content \<Rightarrow> error + ID list list" where
  "Unmarshal c =
     (case c of
        Malformed m \<Rightarrow> Inl (Err m)
      | Document j \<Rightarrow> decode_slice (decode_slice decode_ID) j)"

subsection \<open>The fetcher: \<^verbatim>\<open>getDaily\<close>\<close>

text \<open>
  The request is built from constants and today's date; \<^verbatim>\<open>http.NewRequest\<close> cannot
  fail on them, so the return of line 109 is dead and the loop starts with \<^verbatim>\<open>err\<close>
  nil. What is sent does not enter the control flow: the feed is modelled by its
  answers.
\<close>

definition client_Do :: "env \<Rightarrow> world \<Rightarrow> (response option \<times> error option) \<times> world" where
  "client_Do env w = (feed env (feed_calls w), w\<lparr>feed_calls := Suc (feed_calls w)\<rparr>)"

text \<open>
  The loop of lines 121 to 132, from the values of \<^verbatim>\<open>retries\<close>, \<^verbatim>\<open>res\<close> and \<^verbatim>\<open>err\<close>
  at its head. Reading \<^verbatim>\<open>res.StatusCode\<close> of a nil response would panic.
\<close>

function retry ::
  "env \<Rightarrow> world \<Rightarrow> nat \<Rightarrow> response option \<Rightarrow> error option
     \<Rightarrow> (response option \<times> error option) outcome \<times> world" where
  "retry env w retries res err =
     (if retries < 3 then
        (case client_Do env w of
           ((res', err'), w1) \<Rightarrow>
             (case err' of
                Some e \<Rightarrow> retry env (log (HTTPRequestError e) w1) (retries + 1) res' err'
              | None \<Rightarrow>
                  (case res' of
                     None \<Rightarrow> (Panic NilDereference, w1)
                   | Some r \<Rightarrow>
                       (if StatusCode r = 502
                        then retry env (log (Retry502 (retries + 1)) w1) (retries + 1) res' err'
                        else (Return (res', err'), w1)))))
      else (Return (res, err), w))"
  by pat_completeness auto
termination
  by (relation "measure (\<lambda>(env, w, retries, res, err). 3 - retries)") auto

text \<open>The loop of lines 152 to 154, from the value of \<^verbatim>\<open>p.Data\<close> at its head.\<close>

fun append_all :: "ID list \<Rightarrow> ID list \<Rightarrow> ID list" where
  "append_all data [] = data"
| "append_all data (x # xs) = append_all (data @ [x]) xs"

text \<open>
  After the loop, \<^verbatim>\<open>defer res.Body.Close()\<close> evaluates \<^verbatim>\<open>res.Body\<close> at once (line
  133): a nil \<^verbatim>\<open>res\<close> panics there. The bare \<^verbatim>\<open>return\<close> of line 138 returns the
  named results, \<^verbatim>\<open>p\<close> still nil. \<^verbatim>\<open>tempSlice[0]\<close> of an empty slice panics (line 152).
\<close>

definition getDaily :: "env \<Rightarrow> world \<Rightarrow> (Pastes option \<times> error option) outcome \<times> world" where
  "getDaily env w =
     (case retry env w 0 None None of
        (Panic x, w1) \<Rightarrow> (Panic x, w1)
      | (Return (None, err), w1) \<Rightarrow> (Panic NilDereference, w1)
      | (Return (Some res, err), w1) \<Rightarrow>
          (case Body res of
             ReadError m \<Rightarrow> (Return (None, Some (Err m)), log (Printed (Err m)) w1)
           | Bytes c \<Rightarrow>
               (case Unmarshal c of
                  Inl e \<Rightarrow> (Return (Some \<lparr>Data = []\<rparr>, Some e), w1)
                | Inr tempSlice \<Rightarrow>
                    (case tempSlice of
                       [] \<Rightarrow> (Panic IndexOutOfRange, w1)
                     | inner # _ \<Rightarrow>
                         (Return (Some \<lparr>Data = append_all [] inner\<rparr>, None), w1)))))"

subsection \<open>The scheduler: the body of \<^verbatim>\<open>main\<close>'s loop\<close>

text \<open>
  The loop of lines 273 to 290 over \<^verbatim>\<open>p.Data\<close>. The \<^verbatim>\<open>break\<close> of line 277 leaves
  this loop (it is the innermost statement a \<^verbatim>\<open>break\<close> can leave); the two
  \<^verbatim>\<open>continue\<close>s go on with the next element. A panic in \<^verbatim>\<open>send\<close> ends the process.
\<close>

fun range_loop :: "env \<Rightarrow> string \<Rightarrow> world \<Rightarrow> ID list \<Rightarrow> unit outcome \<times> world" where
  "range_loop env hostString w [] = (Return (), w)"
| "range_loop env hostString w (i # rest) =
     (case checkID env w (ID i) of
        ((ok, Some e), w1) \<Rightarrow> (Return (), log (QueryFailed (ID i) (Some e)) w1)
      | ((False, None), w1) \<Rightarrow> (Return (), log (QueryFailed (ID i) None) w1)
      | ((True, None), w1) \<Rightarrow>
          (case addID env w1 (ID i) of
             (Some e, w2) \<Rightarrow>
               (if Error e \<noteq> unique_violation
                then range_loop env hostString (log (SaveFailed e) w2) rest
                else range_loop env hostString w2 rest)
           | (None, w2) \<Rightarrow>
               (case send env w2 i hostString of
                  (Panic x, w3) \<Rightarrow> (Panic x, w3)
                | (Return (Some e), w3) \<Rightarrow> range_loop env hostString (log (SendFailed e) w3) rest
                | (Return None, w3) \<Rightarrow> range_loop env hostString w3 rest)))"

text \<open>
  One tick (lines 265 to 290). The \<^verbatim>\<open>break\<close> of line 270 leaves the \<^verbatim>\<open>select\<close>, so
  the cycle ends and the next tick is awaited. \<^verbatim>\<open>p.Data\<close> of a nil \<^verbatim>\<open>p\<close> would panic.
\<close>

definition tick :: "env \<Rightarrow> string \<Rightarrow> world \<Rightarrow> unit outcome \<times> world" where
  "tick env hostString w =
     (case getDaily env (log CheckingForUpdates w) of
        (Panic x, w1) \<Rightarrow> (Panic x, w1)
      | (Return (p, Some e), w1) \<Rightarrow> (Return (), log (DailyError e) w1)
      | (Return (None, None), w1) \<Rightarrow> (Panic NilDereference, w1)
      | (Return (Some ps, None), w1) \<Rightarrow> range_loop env hostString w1 (Data ps))"

text \<open>
  The first \<open>n\<close> ticks of the endless loop of line 262; a panic ends the process, and
  the ticks after it do not happen.
\<close>

fun ticks :: "env \<Rightarrow> string \<Rightarrow> nat \<Rightarrow> world \<Rightarrow> unit outcome \<times> world" where
  "ticks env hostString 0 w = (Return (), w)"
| "ticks env hostString (Suc n) w =
     (case tick env hostString w of
        (Panic x, w1) \<Rightarrow> (Panic x, w1)
      | (Return u, w1) \<Rightarrow> ticks env hostString n w1)"

subsection \<open>Notions used in the statements\<close>

text \<open>
  The number of POST requests issued so far whose payload is the identifier \<open>x\<close>: how
  often \<open>x\<close> has been a delivery target.
\<close>

definition forwards :: "world \<Rightarrow> string \<Rightarrow> nat" where
  "forwards w x = length (filter (\<lambda>p. snd p = JStr x) (posts w))"

text \<open>
  The documented shape of one candidate record in the feed's answer: an object with the
  members \<^verbatim>\<open>id\<close> (string), \<^verbatim>\<open>tags\<close> (string) and \<^verbatim>\<open>date\<close> (integer).
\<close>

definition encode_ID :: "ID \<Rightarrow> json" where
  "encode_ID r =
     JObj [(''id'', JStr (ID r)), (''tags'', JStr (Tags r)), (''date'', JInt (sint (Date r)))]"



text \<open>Concrete inputs for the examples: a process just started on an empty table,\<close>

definition fresh :: world where
  "fresh = \<lparr>pastes = [], db_calls = 0, feed_calls = 0, posts = [], logs = []\<rparr>"

text \<open>three candidate records,\<close>

definition paste_a :: ID where
  "paste_a = \<lparr>ID = ''a'', Tags = ''leak'', Date = 1612137600\<rparr>"

definition paste_b :: ID where
  "paste_b = \<lparr>ID = ''b'', Tags = [], Date = 1612137660\<rparr>"


text \<open>
  and an outside world without faults, whose feed answers every request with status 200
  and the document \<open>j\<close>.
\<close>

definition answering :: "json \<Rightarrow> env" where
  "answering j =
     \<lparr>feed = (\<lambda>n. (Some \<lparr>StatusCode = 200, Body = Bytes (Document j)\<rparr>, None)),
      downstream = (\<lambda>n. None),
      db_fault = (\<lambda>n. None),
      url_ok = (\<lambda>u. True)\<rparr>"

text \<open>A table that already holds the identifier \<^verbatim>\<open>a\<close>.\<close>

definition seen_a :: world where
  "seen_a = fresh\<lparr>pastes := [(1, ''a'')]\<rparr>"

text \<open>
  Outside worlds with one defect each: a storage fault at the first driver call (the
  prepare of the first lookup), a storage fault at the third (the prepare of the first
  insert), a feed that cannot be reached, a feed behind a gateway that answers 502 with
  the body \<open>c\<close>, and a downstream host that cannot be reached; and one with two storage
  faults, at the third and the fourth driver call (the prepare of the first insert and
  the prepare of the second lookup).
\<close>

definition lookup_fault :: env where
  "lookup_fault =
     (answering JNull)\<lparr>db_fault := (\<lambda>n. if n = 0 then Some ''disk I/O error'' else None)\<rparr>"

definition insert_fault :: env where
  "insert_fault =
     (answering JNull)\<lparr>db_fault := (\<lambda>n. if n = 2 then Some ''disk I/O error'' else None)\<rparr>"

definition unreachable_feed :: env where
  "unreachable_feed =
     (answering JNull)\<lparr>feed := (\<lambda>n. (None, Some (Err ''connection refused'')))\<rparr>"

definition bad_gateway :: "content \<Rightarrow> env" where
  "bad_gateway c =
     (answering JNull)\<lparr>feed := (\<lambda>n. (Some \<lparr>StatusCode = 502, Body = Bytes c\<rparr>, None))\<rparr>"

definition unreachable_downstream :: "json \<Rightarrow> env" where
  "unreachable_downstream j =
     (answering j)\<lparr>downstream := (\<lambda>n. Some (Err ''connection refused''))\<rparr>"


section \<open>Properties\<close>

subsection \<open>What each operation leaves alone\<close>

declare retry.simps [simp del]

lemma driver_frame:
  "driver env w = (r, w') \<Longrightarrow> w' = w\<lparr>db_calls := Suc (db_calls w)\<rparr>"
  by (auto simp: driver_def)

lemma checkID_frame:
  "checkID env w i = (r, w') \<Longrightarrow>
     pastes w' = pastes w \<and> posts w' = posts w \<and> logs w' = logs w \<and>
     feed_calls w' = feed_calls w"
  by (auto simp: checkID_def Scan_def driver_def split: prod.splits option.splits if_splits)

lemma addID_frame:
  "addID env w i = (r, w') \<Longrightarrow>
     posts w' = posts w \<and> logs w' = logs w \<and> feed_calls w' = feed_calls w"
  by (auto simp: addID_def Exec_def Commit_def Rollback_def driver_def
      split: prod.splits option.splits if_splits sum.splits)

lemma addID_error_keeps_rows:
  "addID env w i = (Some e, w') \<Longrightarrow> pastes w' = pastes w"
  by (auto simp: addID_def Exec_def Commit_def Rollback_def driver_def
      split: prod.splits option.splits if_splits sum.splits)

lemma addID_grows:
  "addID env w i = (r, w') \<Longrightarrow> set (paste_IDs w) \<subseteq> set (paste_IDs w')"
  by (auto simp: addID_def Exec_def Commit_def Rollback_def driver_def paste_IDs_def
      split: prod.splits option.splits if_splits sum.splits)

lemma addID_recorded_fails:
  "i \<in> set (paste_IDs w) \<Longrightarrow> addID env w i = (r, w') \<Longrightarrow> r \<noteq> None"
  by (auto simp: addID_def Exec_def Commit_def Rollback_def driver_def paste_IDs_def
      split: prod.splits option.splits if_splits sum.splits)

lemma send_frame:
  "send env w i h = (r, w') \<Longrightarrow>
     pastes w' = pastes w \<and> logs w' = logs w \<and> feed_calls w' = feed_calls w \<and>
     db_calls w' = db_calls w"
  by (auto simp: send_def post_def split: if_splits)

lemma send_forwards:
  "send env w i h = (r, w') \<Longrightarrow> x \<noteq> ID i \<Longrightarrow> forwards w' x = forwards w x"
  by (auto simp: send_def post_def forwards_def split: if_splits)

lemma log_frame [simp]:
  "pastes (log l w) = pastes w" "posts (log l w) = posts w" "db_calls (log l w) = db_calls w"
  "feed_calls (log l w) = feed_calls w" "logs (log l w) = logs w @ [l]"
  by (simp_all add: log_def)

lemma paste_IDs_log [simp]: "paste_IDs (log l w) = paste_IDs w"
  by (simp add: paste_IDs_def)

lemma forwards_log [simp]: "forwards (log l w) x = forwards w x"
  by (simp add: forwards_def)

text \<open>
  The loop over a batch keeps an identifier that is in the table there, and issues no
  request for it.
\<close>

lemma range_loop_recorded:
  "x \<in> set (paste_IDs w) \<Longrightarrow> range_loop env h w ids = (st, w') \<Longrightarrow>
     x \<in> set (paste_IDs w') \<and> forwards w' x = forwards w x"
proof (induction ids arbitrary: w)
  case Nil
  then show ?case by simp
next
  case (Cons i rest)
  obtain ok err w1 where c: "checkID env w (ID i) = ((ok, err), w1)"
    by (metis prod.exhaust)
  note f1 = checkID_frame [OF c]
  have x1: "x \<in> set (paste_IDs w1)" using Cons.prems(1) f1 by (simp add: paste_IDs_def)
  have fw1: "forwards w1 x = forwards w x" using f1 by (simp add: forwards_def)
  show ?case
  proof (cases "ok \<and> err = None")
    case False
    then show ?thesis using Cons.prems(2) c x1 fw1
      by (cases err; cases ok) auto
  next
    case True
    obtain r w2 where a: "addID env w1 (ID i) = (r, w2)" by (metis prod.exhaust)
    note f2 = addID_frame [OF a]
    have x2: "x \<in> set (paste_IDs w2)" using addID_grows [OF a] x1 by auto
    have fw2: "forwards w2 x = forwards w x" using f2 fw1 by (simp add: forwards_def)
    show ?thesis
    proof (cases r)
      case (Some e)
      then show ?thesis using Cons.prems(2) c a True x2 fw2
          Cons.IH [of "log (SaveFailed e) w2"] Cons.IH [of w2]
        by (auto split: if_splits)
    next
      case None
      then have ne: "x \<noteq> ID i" using addID_recorded_fails [OF _ a] x1 by auto
      obtain s w3 where s: "send env w2 i h = (s, w3)" by (metis prod.exhaust)
      have x3: "x \<in> set (paste_IDs w3)" using send_frame [OF s] x2 by (simp add: paste_IDs_def)
      have fw3: "forwards w3 x = forwards w x" using send_forwards [OF s ne] fw2 by simp
      show ?thesis using Cons.prems(2) c a True None s x3 fw3
          Cons.IH [of "log (SendFailed e) w3" for e] Cons.IH [of w3]
        by (auto split: outcome.splits option.splits)
    qed
  qed
qed

lemma client_Do_frame:
  "client_Do env w = (r, w') \<Longrightarrow> w' = w\<lparr>feed_calls := Suc (feed_calls w)\<rparr>"
  by (auto simp: client_Do_def)

lemma retry_frame:
  "retry env w n res err = (out, w') \<Longrightarrow>
     pastes w' = pastes w \<and> posts w' = posts w \<and> db_calls w' = db_calls w"
proof (induction env w n res err rule: retry.induct)
  case (1 env w retries res err)
  show ?case
  proof (cases "retries < 3")
    case False
    then show ?thesis using "1.prems" by (simp add: retry.simps)
  next
    case True
    obtain res' err' w1 where d: "client_Do env w = ((res', err'), w1)"
      by (metis prod.exhaust)
    have w1: "pastes w1 = pastes w \<and> posts w1 = posts w \<and> db_calls w1 = db_calls w"
      using client_Do_frame [OF d] by simp
    show ?thesis
      using "1.prems" True d w1 "1.IH"
      apply (subst (asm) retry.simps)
      apply (auto split: option.splits if_splits)
      done
  qed
qed

subsection \<open>The decoder on the documented shape\<close>

lemma append_all_eq: "append_all data xs = data @ xs"
  by (induction xs arbitrary: data) auto

lemma into_int_sint: "into_int (JInt (sint d)) cur = Inr d"
proof -
  have "- (2 ^ 63) \<le> sint d" using sint_ge [of d] by simp
  moreover have "sint d < 2 ^ 63" using sint_lt [of d] by simp
  ultimately show ?thesis by (simp add: into_int_def)
qed

lemma member_into_id: "member_into (''id'', JStr s) r = Inr (r\<lparr>ID := s\<rparr>)"
  by (simp add: member_into_def lower_def into_string_def)

lemma member_into_tags: "member_into (''tags'', JStr s) r = Inr (r\<lparr>Tags := s\<rparr>)"
  by (simp add: member_into_def lower_def into_string_def)

lemma member_into_date: "member_into (''date'', JInt (sint d)) r = Inr (r\<lparr>Date := d\<rparr>)"
  by (simp add: member_into_def lower_def into_int_sint)

text \<open>A member named \<^verbatim>\<open>Tag\<close> followed by U+017F is decoded into \<^verbatim>\<open>Tags\<close>.\<close>

lemma lower_T: "lower CHR ''T'' = CHR ''t''"
  by code_simp

lemma member_into_folded:
  "member_into ([CHR ''T'', CHR ''a'', CHR ''g'', CHR 0xC5, CHR 0xBF], JStr s) r = Inr (r\<lparr>Tags := s\<rparr>)"
  by (simp add: member_into_def lower_T into_string_def) (simp add: lower_def)

lemma decode_ID_encode_ID: "decode_ID (encode_ID r) = Inr r"
  by (simp add: decode_ID_def encode_ID_def member_into_id member_into_tags member_into_date
      zero_ID_def)

lemma decode_elements_encode_ID: "decode_elements decode_ID (map encode_ID rs) = Inr rs"
  by (induction rs) (simp_all add: decode_ID_encode_ID)

lemma Unmarshal_documented:
  "Unmarshal (Document (JArr [JArr (map encode_ID rs)])) = Inr [rs]"
  by (simp add: Unmarshal_def decode_slice_def decode_elements_encode_ID)

subsection \<open>A recorded identifier stays recorded and is never forwarded\<close>

lemma getDaily_frame:
  "getDaily env w = (out, w') \<Longrightarrow>
     pastes w' = pastes w \<and> posts w' = posts w \<and> db_calls w' = db_calls w"
proof -
  assume g: "getDaily env w = (out, w')"
  obtain o1 w1 where r: "retry env w 0 None None = (o1, w1)" by (metis prod.exhaust)
  note f = retry_frame [OF r]
  show ?thesis using g r f
    by (auto simp: getDaily_def split: outcome.splits option.splits body.splits sum.splits
        list.splits prod.splits)
qed

lemma tick_recorded:
  assumes "x \<in> set (paste_IDs w)" and "tick env h w = (st, w')"
  shows "x \<in> set (paste_IDs w') \<and> forwards w' x = forwards w x"
proof -
  obtain o1 w1 where g: "getDaily env (log CheckingForUpdates w) = (o1, w1)"
    by (metis prod.exhaust)
  have f: "pastes w1 = pastes w \<and> posts w1 = posts w" using getDaily_frame [OF g] by simp
  then have x1: "x \<in> set (paste_IDs w1)" and fw: "forwards w1 x = forwards w x"
    using assms(1) by (simp_all add: paste_IDs_def forwards_def)
  show ?thesis
  proof (cases o1)
    case (Panic p)
    then show ?thesis using assms(2) g x1 fw by (simp add: tick_def)
  next
    case (Return pe)
    obtain p e where pe: "pe = (p, e)" by (metis prod.exhaust)
    show ?thesis
    proof (cases e)
      case (Some err)
      then show ?thesis using assms(2) g Return pe x1 fw
        by (auto simp: tick_def split: option.splits)
    next
      case None
      show ?thesis
      proof (cases p)
        case None': None
        then show ?thesis using assms(2) g Return pe None x1 fw by (auto simp: tick_def)
      next
        case (Some ps)
        then have "range_loop env h w1 (Data ps) = (st, w')"
          using assms(2) g Return pe None by (simp add: tick_def)
        from range_loop_recorded [OF x1 this] fw show ?thesis by simp
      qed
    qed
  qed
qed

lemma ticks_recorded:
  "x \<in> set (paste_IDs w) \<Longrightarrow> ticks env h n w = (st, w') \<Longrightarrow>
     x \<in> set (paste_IDs w') \<and> forwards w' x = forwards w x"
proof (induction n arbitrary: w)
  case 0
  then show ?case by simp
next
  case (Suc n)
  obtain o1 w1 where t: "tick env h w = (o1, w1)" by (metis prod.exhaust)
  note r = tick_recorded [OF Suc.prems(1) t]
  show ?case
  proof (cases o1)
    case (Panic p)
    then show ?thesis using Suc.prems(2) t r by simp
  next
    case (Return u)
    then have "ticks env h n w1 = (st, w')" using Suc.prems(2) t by simp
    from Suc.IH [OF _ this] r show ?thesis by simp
  qed
qed

subsection \<open>The loop over a whole batch\<close>








subsection \<open>The retry loop\<close>

lemmas retry_unrolled =
  retry.simps [of _ _ 0] retry.simps [of _ _ "Suc 0"] retry.simps [of _ _ "Suc (Suc 0)"]
  retry.simps [of _ _ "Suc (Suc (Suc 0))"] retry.simps [of _ _ 1] retry.simps [of _ _ 2]
  retry.simps [of _ _ 3]

lemma retry_first_answer:
  assumes "feed env (feed_calls w) = (Some r, None)" and "StatusCode r \<noteq> 502"
  shows "retry env w 0 None None = (Return (Some r, None), w\<lparr>feed_calls := Suc (feed_calls w)\<rparr>)"
  using assms by (simp add: retry.simps [of _ _ 0] client_Do_def)

lemma retry_three_errors:
  assumes "feed env (feed_calls w) = (None, Some e0)"
    and "feed env (feed_calls w + 1) = (None, Some e1)"
    and "feed env (feed_calls w + 2) = (None, Some e2)"
  shows "retry env w 0 None None =
    (Return (None, Some e2),
     w\<lparr>feed_calls := feed_calls w + 3,
       logs := logs w @ [HTTPRequestError e0, HTTPRequestError e1, HTTPRequestError e2]\<rparr>)"
  using assms
  by (simp add: retry_unrolled client_Do_def log_def)

lemma retry_attempts:
  "retry env w n res err = (out, w') \<Longrightarrow>
     feed_calls w \<le> feed_calls w' \<and> feed_calls w' + n \<le> feed_calls w + max 3 n"
proof (induction env w n res err rule: retry.induct)
  case (1 env w retries res err)
  show ?case
  proof (cases "retries < 3")
    case False
    then show ?thesis using "1.prems" by (simp add: retry.simps)
  next
    case True
    obtain res' err' w1 where d: "client_Do env w = ((res', err'), w1)"
      by (metis prod.exhaust)
    have w1: "feed_calls w1 = Suc (feed_calls w)"
      using client_Do_frame [OF d] by simp
    note step = "1.prems" [unfolded retry.simps [of env w retries]]
    show ?thesis
    proof (cases err')
      case (Some e)
      then have "retry env (log (HTTPRequestError e) w1) (retries + 1) res' err' = (out, w')"
        using step True d by simp
      from "1.IH"(2) [OF True d [symmetric] refl Some this] w1 True
      show ?thesis by auto
    next
      case None
      show ?thesis
      proof (cases res')
        case None': None
        then show ?thesis using step True d None w1 by auto
      next
        case (Some r)
        show ?thesis
        proof (cases "StatusCode r = 502")
          case False
          then show ?thesis using step True d None Some w1 by auto
        next
          case r502: True
          then have "retry env (log (Retry502 (retries + 1)) w1) (retries + 1) res' err' = (out, w')"
            using step True d None Some by simp
          from "1.IH"(1) [OF True d [symmetric] refl None Some r502 this] w1 True
          show ?thesis by auto
        qed
      qed
    qed
  qed
qed

text \<open>One call of \<^verbatim>\<open>getDaily\<close> sends at most three requests to the feed.\<close>

lemma getDaily_at_most_three_attempts:
  "feed_calls (snd (getDaily env w)) \<le> feed_calls w + 3"
proof -
  obtain out w1 where r: "retry env w 0 None None = (out, w1)" by (metis prod.exhaust)
  have "feed_calls w1 \<le> feed_calls w + 3" using retry_attempts [OF r] by simp
  then show ?thesis using r
    by (auto simp: getDaily_def log_def split: outcome.splits option.splits body.splits
        sum.splits list.splits prod.splits)
qed

text \<open>
  When none of the three attempts produces a response, the loop either panics or ends
  with a nil response.
\<close>

lemma retry_no_response:
  assumes "fst (feed env (feed_calls w)) = None"
    and "fst (feed env (feed_calls w + 1)) = None"
    and "fst (feed env (feed_calls w + 2)) = None"
  shows "fst (retry env w 0 None None) = Panic NilDereference \<or>
         (\<exists>e. fst (retry env w 0 None None) = Return (None, e))"
proof -
  obtain a where a: "feed env (feed_calls w) = (None, a)" using assms(1) by (metis fst_conv prod.exhaust)
  obtain b where b: "feed env (feed_calls w + 1) = (None, b)" using assms(2) by (metis fst_conv prod.exhaust)
  obtain c where c: "feed env (feed_calls w + 2) = (None, c)" using assms(3) by (metis fst_conv prod.exhaust)
  show ?thesis using a b c
    by (cases a; cases b; cases c)
      (simp_all add: retry_unrolled client_Do_def log_def)
qed

lemmas ledger_defs =
  checkID_def addID_def Scan_def Exec_def Commit_def Rollback_def driver_def paste_IDs_def
  next_rowid_def unique_violation_def

lemmas example_defs =
  fresh_def seen_a_def paste_a_def paste_b_def answering_def lookup_fault_def insert_fault_def
  unreachable_feed_def bad_gateway_def unreachable_downstream_def

section \<open>The claims\<close>

subsection \<open>C1: a failed lookup and the rest of the batch\<close>

text \<open>
  What the loop does when \<^verbatim>\<open>checkID\<close> returns an error: it logs the line and stops,
  whatever candidates are left.
\<close>

lemma lookup_error_breaks:
  "checkID env w (ID i) = ((ok, Some e), w1) \<Longrightarrow>
     range_loop env h w (i # rest) = (Return (), log (QueryFailed (ID i) (Some e)) w1)"
  by (cases ok) simp_all

text \<open>
  C1 says that a candidate whose ledger lookup returns an error is logged and skipped,
  and that the candidates after it in the batch are still processed. Evaluated on the
  batch \<^verbatim>\<open>a, b\<close> with a storage fault at the lookup of \<^verbatim>\<open>a\<close>: the loop logs the
  failure and ends; \<^verbatim>\<open>b\<close> is neither recorded nor forwarded, although processing \<^verbatim>\<open>b\<close>
  from that very state would have recorded and forwarded it.
\<close>

theorem lookup_error_ends_batch:
  "range_loop lookup_fault ''http://dg'' fresh [paste_a, paste_b] =
     (Return (),
      \<lparr>pastes = [], db_calls = 1, feed_calls = 0, posts = [],
       logs = [QueryFailed ''a'' (Some (Err ''disk I/O error''))]\<rparr>)
   \<and> range_loop lookup_fault ''http://dg''
       \<lparr>pastes = [], db_calls = 1, feed_calls = 0, posts = [],
        logs = [QueryFailed ''a'' (Some (Err ''disk I/O error''))]\<rparr> [paste_b] =
     (Return (),
      \<lparr>pastes = [(1, ''b'')], db_calls = 7, feed_calls = 0,
       posts = [(''http://dg/event'', JStr ''b'')],
       logs = [QueryFailed ''a'' (Some (Err ''disk I/O error''))]\<rparr>)"
  by (simp add: ledger_defs example_defs send_def post_def log_def)

subsection \<open>C2: what \<^verbatim>\<open>checkID\<close> reports\<close>

text \<open>
  C2 says that \<^verbatim>\<open>checkID\<close> returns true exactly when the identifier has been recorded.
  On an empty table and without any fault it returns true for an identifier that was
  never recorded.
\<close>

theorem checkID_true_for_unrecorded:
  "fst (checkID (answering JNull) fresh ''a'') = (True, None) \<and> ''a'' \<notin> set (paste_IDs fresh)"
  by (simp add: ledger_defs example_defs)

text \<open>
  C2, amended: \<^verbatim>\<open>checkID\<close> returns true and no error whenever neither its prepare nor
  its scan hits a storage fault, whether or not the identifier has been recorded (the
  result does not depend on the table), and false with the error of the first fault
  otherwise; it changes neither the table nor the requests issued nor the log.
\<close>

theorem checkID_reports_faults_only:
  "fst (checkID env w i) =
     (case db_fault env (db_calls w) of
        Some m \<Rightarrow> (False, Some (Err m))
      | None \<Rightarrow>
          (case db_fault env (Suc (db_calls w)) of
             Some m \<Rightarrow> (False, Some (Err m))
           | None \<Rightarrow> (True, None)))
   \<and> pastes (snd (checkID env w i)) = pastes w
   \<and> posts (snd (checkID env w i)) = posts w
   \<and> logs (snd (checkID env w i)) = logs w"
  by (simp add: checkID_def Scan_def driver_def paste_IDs_def split: option.splits)

text \<open>
  C2, amended, on the table holding \<^verbatim>\<open>a\<close>: true for the recorded \<^verbatim>\<open>a\<close> and for the
  unrecorded \<^verbatim>\<open>b\<close> alike, false under a fault, the table untouched.
\<close>

theorem checkID_reports_faults_only_witness:
  "fst (checkID (answering JNull) seen_a ''a'') = (True, None)
   \<and> fst (checkID (answering JNull) seen_a ''b'') = (True, None)
   \<and> fst (checkID lookup_fault seen_a ''a'') = (False, Some (Err ''disk I/O error''))
   \<and> pastes (snd (checkID (answering JNull) seen_a ''b'')) = [(1, ''a'')]"
  using checkID_reports_faults_only [of "answering JNull" seen_a "''a''"]
    checkID_reports_faults_only [of "answering JNull" seen_a "''b''"]
    checkID_reports_faults_only [of lookup_fault seen_a "''a''"]
  by (simp add: example_defs)

subsection \<open>C3: three failed attempts\<close>

text \<open>
  C3 says that after three failed attempts (transport failures or 502 responses)
  \<^verbatim>\<open>getDaily\<close> returns the last error, without a fourth attempt. Evaluated: after three
  transport failures it has made three requests and panics on the nil response instead
  of returning; after three 502 responses it has made three requests and goes on to
  decode the body of the last one, here returning a batch and no error.
\<close>

theorem retries_exhausted_no_error:
  "getDaily unreachable_feed fresh =
     (Panic NilDereference,
      \<lparr>pastes = [], db_calls = 0, feed_calls = 3, posts = [],
       logs = [HTTPRequestError (Err ''connection refused''),
               HTTPRequestError (Err ''connection refused''),
               HTTPRequestError (Err ''connection refused'')]\<rparr>)
   \<and> getDaily (bad_gateway (Document (JArr [JArr [encode_ID paste_a]]))) fresh =
     (Return (Some \<lparr>Data = [paste_a]\<rparr>, None),
      \<lparr>pastes = [], db_calls = 0, feed_calls = 3, posts = [],
       logs = [Retry502 1, Retry502 2, Retry502 3]\<rparr>)"
proof -
  have "Unmarshal (Document (JArr [JArr [encode_ID paste_a]])) = Inr [[paste_a]]"
    using Unmarshal_documented [of "[paste_a]"] by simp
  then have "getDaily (bad_gateway (Document (JArr [JArr [encode_ID paste_a]]))) fresh =
     (Return (Some \<lparr>Data = [paste_a]\<rparr>, None),
      \<lparr>pastes = [], db_calls = 0, feed_calls = 3, posts = [],
       logs = [Retry502 1, Retry502 2, Retry502 3]\<rparr>)"
    by (simp add: getDaily_def retry_unrolled client_Do_def log_def fresh_def bad_gateway_def
        answering_def numeral_3_eq_3 numeral_2_eq_2)
  moreover have "getDaily unreachable_feed fresh =
     (Panic NilDereference,
      \<lparr>pastes = [], db_calls = 0, feed_calls = 3, posts = [],
       logs = [HTTPRequestError (Err ''connection refused''),
               HTTPRequestError (Err ''connection refused''),
               HTTPRequestError (Err ''connection refused'')]\<rparr>)"
    by (simp add: getDaily_def retry_unrolled client_Do_def log_def fresh_def
        unreachable_feed_def answering_def numeral_3_eq_3)
  ultimately show ?thesis by simp
qed

subsection \<open>C4: duplicates\<close>

text \<open>
  Without storage faults, the insert of an identifier that is already in the table
  reports the uniqueness violation.
\<close>

lemma addID_recorded_reports_duplicate:
  assumes "i \<in> set (paste_IDs w)"
    and "db_fault env (db_calls w) = None"
    and "db_fault env (Suc (db_calls w)) = None"
    and "db_fault env (Suc (Suc (db_calls w))) = None"
  shows "fst (addID env w i) = Some (Err unique_violation)"
  using assms by (simp add: addID_def Exec_def driver_def paste_IDs_def)

text \<open>
  C4: when \<^verbatim>\<open>addID\<close> reports the uniqueness violation for a candidate, the loop goes on
  with the next candidate from a state in which no request has been issued, no line has
  been logged and the table is unchanged. Hence for an identifier \<open>x\<close> that is in the
  table: an insert of \<open>x\<close> never succeeds, and neither the rest of a batch nor any
  number of later ticks issues a request for \<open>x\<close>; \<open>x\<close> stays in the table.
\<close>

theorem duplicate_skipped_never_forwarded:
  "(checkID env w (ID i) = ((True, None), w1) \<longrightarrow>
    addID env w1 (ID i) = (Some e, w2) \<longrightarrow>
    Error e = unique_violation \<longrightarrow>
      range_loop env h w (i # rest) = range_loop env h w2 rest
      \<and> posts w2 = posts w \<and> logs w2 = logs w \<and> pastes w2 = pastes w)
   \<and> (x \<in> set (paste_IDs w) \<longrightarrow>
        fst (addID env w x) \<noteq> None
        \<and> forwards (snd (range_loop env h w batch)) x = forwards w x
        \<and> forwards (snd (ticks env h n w)) x = forwards w x
        \<and> x \<in> set (paste_IDs (snd (ticks env h n w))))"
proof (intro conjI impI)
  assume c: "checkID env w (ID i) = ((True, None), w1)"
    and a: "addID env w1 (ID i) = (Some e, w2)"
    and u: "Error e = unique_violation"
  show "range_loop env h w (i # rest) = range_loop env h w2 rest"
    using c a u by simp
  show "posts w2 = posts w" using checkID_frame [OF c] addID_frame [OF a] by simp
  show "logs w2 = logs w" using checkID_frame [OF c] addID_frame [OF a] by simp
  show "pastes w2 = pastes w" using checkID_frame [OF c] addID_error_keeps_rows [OF a] by simp
next
  assume x: "x \<in> set (paste_IDs w)"
  show "fst (addID env w x) \<noteq> None"
    using addID_recorded_fails [OF x, of env "fst (addID env w x)" "snd (addID env w x)"] by simp
  show "forwards (snd (range_loop env h w batch)) x = forwards w x"
    using range_loop_recorded [OF x, of env h batch] by (metis prod.collapse)
  show "forwards (snd (ticks env h n w)) x = forwards w x"
    using ticks_recorded [OF x, of env h n] by (metis prod.collapse)
  show "x \<in> set (paste_IDs (snd (ticks env h n w)))"
    using ticks_recorded [OF x, of env h n] by (metis prod.collapse)
qed

text \<open>
  C4 on the table holding \<^verbatim>\<open>a\<close>: the batch \<^verbatim>\<open>a, b\<close> skips \<^verbatim>\<open>a\<close> on the uniqueness
  violation, and two ticks whose feed offers \<^verbatim>\<open>a\<close> and \<^verbatim>\<open>b\<close> issue no request for \<^verbatim>\<open>a\<close>.
\<close>

theorem duplicate_skipped_never_forwarded_witness:
  "checkID (answering JNull) seen_a ''a'' = ((True, None), seen_a\<lparr>db_calls := 2\<rparr>)
   \<and> addID (answering JNull) (seen_a\<lparr>db_calls := 2\<rparr>) ''a'' =
       (Some (Err unique_violation), seen_a\<lparr>db_calls := 6\<rparr>)
   \<and> range_loop (answering JNull) ''http://dg'' seen_a [paste_a, paste_b] =
       range_loop (answering JNull) ''http://dg'' (seen_a\<lparr>db_calls := 6\<rparr>) [paste_b]
   \<and> ''a'' \<in> set (paste_IDs seen_a)
   \<and> forwards (snd (range_loop (answering JNull) ''http://dg'' seen_a [paste_a, paste_b])) ''a'' = 0
   \<and> forwards (snd (ticks (answering (JArr [JArr [encode_ID paste_a, encode_ID paste_b]]))
         ''http://dg'' 2 seen_a)) ''a'' = 0"
proof -
  have c: "checkID (answering JNull) seen_a (ID paste_a) = ((True, None), seen_a\<lparr>db_calls := 2\<rparr>)"
    by (simp add: ledger_defs example_defs)
  have a: "addID (answering JNull) (seen_a\<lparr>db_calls := 2\<rparr>) (ID paste_a) =
       (Some (Err unique_violation), seen_a\<lparr>db_calls := 6\<rparr>)"
    by (simp add: ledger_defs example_defs)
  have u: "Error (Err unique_violation) = unique_violation" by simp
  have x: "''a'' \<in> set (paste_IDs seen_a)" by (simp add: paste_IDs_def example_defs)
  have f: "forwards seen_a ''a'' = 0" by (simp add: forwards_def example_defs)
  have i: "ID paste_a = ''a''" by (simp add: paste_a_def)
  from duplicate_skipped_never_forwarded
    [of "answering JNull" seen_a paste_a "seen_a\<lparr>db_calls := 2\<rparr>" "Err unique_violation"
      "seen_a\<lparr>db_calls := 6\<rparr>" "''http://dg''" "[paste_b]" "''a''" "[paste_a, paste_b]" 0]
    duplicate_skipped_never_forwarded
    [of "answering (JArr [JArr [encode_ID paste_a, encode_ID paste_b]])" seen_a paste_a
      seen_a "Err unique_violation" seen_a "''http://dg''" "[]" "''a''" "[]" 2]
    c a u x f i
  show ?thesis by simp
qed


subsection \<open>C5: unwrapping the feed's answer\<close>

text \<open>
  C5: when the retry loop ends with a response whose body is an outer one-element array
  around an array of candidate records of the documented shape, \<^verbatim>\<open>getDaily\<close> returns
  exactly those records, in their order, and no error.
\<close>

theorem getDaily_returns_inner_sequence:
  assumes "retry env w 0 None None = (Return (Some r, err), w1)"
    and "Body r = Bytes (Document (JArr [JArr (map encode_ID ids)]))"
  shows "getDaily env w = (Return (Some \<lparr>Data = ids\<rparr>, None), w1)"
  using assms by (simp add: getDaily_def Unmarshal_documented append_all_eq)

text \<open>
  C5 on the answer \<^verbatim>\<open>[[{"id":"a",...},{"id":"b",...}]]\<close>: the two records, \<^verbatim>\<open>a\<close> then
  \<^verbatim>\<open>b\<close>.
\<close>

theorem getDaily_returns_inner_sequence_witness:
  "getDaily (answering (JArr [JArr [encode_ID paste_a, encode_ID paste_b]])) fresh =
     (Return (Some \<lparr>Data = [paste_a, paste_b]\<rparr>, None), fresh\<lparr>feed_calls := 1\<rparr>)"
proof -
  let ?env = "answering (JArr [JArr [encode_ID paste_a, encode_ID paste_b]])"
  let ?r = "\<lparr>StatusCode = 200, Body = Bytes (Document (JArr [JArr (map encode_ID [paste_a, paste_b])]))\<rparr>"
  have "retry ?env fresh 0 None None = (Return (Some ?r, None), fresh\<lparr>feed_calls := Suc (feed_calls fresh)\<rparr>)"
    by (rule retry_first_answer) (simp_all add: answering_def)
  then have r: "retry ?env fresh 0 None None = (Return (Some ?r, None), fresh\<lparr>feed_calls := 1\<rparr>)"
    by (simp add: fresh_def)
  have b: "Body ?r = Bytes (Document (JArr [JArr (map encode_ID [paste_a, paste_b])]))"
    by simp
  from getDaily_returns_inner_sequence [OF r b] show ?thesis by simp
qed

subsection \<open>C6: a day without pastes\<close>

text \<open>
  C6: when the retry loop ends with a response whose body is \<^verbatim>\<open>[[]]\<close>, \<^verbatim>\<open>getDaily\<close>
  returns the empty sequence and no error; a tick that gets this answer ends normally
  in the state the fetch left, with no request issued, the table unchanged and no call
  into the database driver.
\<close>

theorem empty_day:
  "(retry env w 0 None None = (Return (Some r, err), w1) \<longrightarrow>
    Body r = Bytes (Document (JArr [JArr []])) \<longrightarrow>
      getDaily env w = (Return (Some \<lparr>Data = []\<rparr>, None), w1))
   \<and> (retry env (log CheckingForUpdates w) 0 None None = (Return (Some r, err), w1) \<longrightarrow>
       Body r = Bytes (Document (JArr [JArr []])) \<longrightarrow>
         tick env h w = (Return (), w1)
         \<and> posts w1 = posts w \<and> pastes w1 = pastes w \<and> db_calls w1 = db_calls w)"
proof -
  have u: "Unmarshal (Document (JArr [JArr []])) = Inr [[]]"
    by (simp add: Unmarshal_def decode_slice_def)
  have g: "getDaily env w' = (Return (Some \<lparr>Data = []\<rparr>, None), w1)"
    if "retry env w' 0 None None = (Return (Some r, err), w1)"
      and "Body r = Bytes (Document (JArr [JArr []]))" for w'
    using that u by (simp add: getDaily_def)
  show ?thesis
  proof (intro conjI impI)
    assume "retry env w 0 None None = (Return (Some r, err), w1)"
      and "Body r = Bytes (Document (JArr [JArr []]))"
    then show "getDaily env w = (Return (Some \<lparr>Data = []\<rparr>, None), w1)" by (rule g)
  next
    assume r: "retry env (log CheckingForUpdates w) 0 None None = (Return (Some r, err), w1)"
      and b: "Body r = Bytes (Document (JArr [JArr []]))"
    show "tick env h w = (Return (), w1)" using g [OF r b] by (simp add: tick_def)
    show "posts w1 = posts w" using retry_frame [OF r] by simp
    show "pastes w1 = pastes w" using retry_frame [OF r] by simp
    show "db_calls w1 = db_calls w" using retry_frame [OF r] by simp
  qed
qed

text \<open>C6 for a process just started whose feed answers \<^verbatim>\<open>[[]]\<close>.\<close>

theorem empty_day_witness:
  "getDaily (answering (JArr [JArr []])) fresh =
     (Return (Some \<lparr>Data = []\<rparr>, None), fresh\<lparr>feed_calls := 1\<rparr>)
   \<and> tick (answering (JArr [JArr []])) ''http://dg'' fresh =
     (Return (), \<lparr>pastes = [], db_calls = 0, feed_calls = 1, posts = [],
                  logs = [CheckingForUpdates]\<rparr>)"
proof -
  let ?env = "answering (JArr [JArr []])"
  let ?r = "\<lparr>StatusCode = 200, Body = Bytes (Document (JArr [JArr []]))\<rparr>"
  have "retry ?env fresh 0 None None = (Return (Some ?r, None), fresh\<lparr>feed_calls := Suc (feed_calls fresh)\<rparr>)"
    by (rule retry_first_answer) (simp_all add: answering_def)
  then have r1: "retry ?env fresh 0 None None = (Return (Some ?r, None), fresh\<lparr>feed_calls := 1\<rparr>)"
    by (simp add: fresh_def)
  let ?w = "log CheckingForUpdates fresh"
  have "retry ?env ?w 0 None None = (Return (Some ?r, None), ?w\<lparr>feed_calls := Suc (feed_calls ?w)\<rparr>)"
    by (rule retry_first_answer) (simp_all add: answering_def)
  then have r2: "retry ?env ?w 0 None None =
      (Return (Some ?r, None), \<lparr>pastes = [], db_calls = 0, feed_calls = 1, posts = [],
                  logs = [CheckingForUpdates]\<rparr>)"
    by (simp add: fresh_def log_def)
  have b: "Body ?r = Bytes (Document (JArr [JArr []]))" by simp
  from empty_day [of ?env fresh ?r None "fresh\<lparr>feed_calls := 1\<rparr>" "''http://dg''"]
    empty_day [of ?env fresh ?r None "\<lparr>pastes = [], db_calls = 0, feed_calls = 1, posts = [],
                  logs = [CheckingForUpdates]\<rparr>" "''http://dg''"]
    r1 r2 b
  show ?thesis by simp
qed

subsection \<open>C7: a failed insert and the rest of the batch\<close>





subsection \<open>C8: a failed delivery\<close>

text \<open>
  C8: when a candidate has just been recorded and \<^verbatim>\<open>send\<close> then fails for it, the
  table is as the insert left it and the loop goes on after logging the error. The
  identifier is still in the table at the end of the cycle and after any number of
  later ticks; no request beyond the failed one is issued for it; and an insert of it
  never succeeds again.
\<close>

theorem forward_failure_keeps_record:
  assumes "checkID env w (ID i) = ((True, None), w1)"
    and "addID env w1 (ID i) = (None, w2)"
    and "ID i \<in> set (paste_IDs w2)"
    and "send env w2 i h = (Return (Some e), w3)"
  shows "pastes w3 = pastes w2
     \<and> range_loop env h w (i # rest) = range_loop env h (log (SendFailed e) w3) rest
     \<and> ID i \<in> set (paste_IDs (snd (range_loop env h w (i # rest))))
     \<and> forwards (snd (range_loop env h w (i # rest))) (ID i) = forwards w3 (ID i)
     \<and> ID i \<in> set (paste_IDs (snd (ticks env h n (snd (range_loop env h w (i # rest))))))
     \<and> forwards (snd (ticks env h n (snd (range_loop env h w (i # rest))))) (ID i) =
         forwards w3 (ID i)
     \<and> fst (addID env (snd (ticks env h n (snd (range_loop env h w (i # rest))))) (ID i)) \<noteq> None"
proof -
  let ?w3 = "log (SendFailed e) w3"
  let ?end = "snd (range_loop env h w (i # rest))"
  let ?later = "snd (ticks env h n ?end)"
  have p: "pastes w3 = pastes w2" using send_frame [OF assms(4)] by simp
  have l: "range_loop env h w (i # rest) = range_loop env h ?w3 rest"
    using assms(1,2,4) by simp
  have x3: "ID i \<in> set (paste_IDs ?w3)" using assms(3) p by (simp add: paste_IDs_def)
  have "range_loop env h ?w3 rest = (fst (range_loop env h ?w3 rest), ?end)"
    using l by simp
  from range_loop_recorded [OF x3 this]
  have e: "ID i \<in> set (paste_IDs ?end)" "forwards ?end (ID i) = forwards w3 (ID i)"
    by simp_all
  have "ticks env h n ?end = (fst (ticks env h n ?end), ?later)" by simp
  from ticks_recorded [OF e(1) this]
  have t: "ID i \<in> set (paste_IDs ?later)" "forwards ?later (ID i) = forwards w3 (ID i)"
    using e(2) by simp_all
  have "addID env ?later (ID i) = (fst (addID env ?later (ID i)), snd (addID env ?later (ID i)))"
    by simp
  from addID_recorded_fails [OF t(1) this]
  have n: "fst (addID env ?later (ID i)) \<noteq> None" .
  show ?thesis using p l e t n by simp
qed

text \<open>
  C8 for a downstream host that cannot be reached and a feed that offers \<^verbatim>\<open>a\<close> at
  every tick: after the cycle that recorded \<^verbatim>\<open>a\<close> and two more ticks, \<^verbatim>\<open>a\<close> is in the
  table and the failed request is the only one issued for it.
\<close>

theorem forward_failure_keeps_record_witness:
  "send (unreachable_downstream (JArr [JArr [encode_ID paste_a]]))
      \<lparr>pastes = [(1, ''a'')], db_calls = 6, feed_calls = 0, posts = [], logs = []\<rparr>
      paste_a ''http://dg'' =
     (Return (Some (Err ''connection refused'')),
      \<lparr>pastes = [(1, ''a'')], db_calls = 6, feed_calls = 0,
       posts = [(''http://dg/event'', JStr ''a'')], logs = []\<rparr>)
   \<and> ''a'' \<in> set (paste_IDs (snd (ticks (unreachable_downstream (JArr [JArr [encode_ID paste_a]]))
        ''http://dg'' 2
        (snd (range_loop (unreachable_downstream (JArr [JArr [encode_ID paste_a]]))
           ''http://dg'' fresh [paste_a])))))
   \<and> forwards (snd (ticks (unreachable_downstream (JArr [JArr [encode_ID paste_a]]))
        ''http://dg'' 2
        (snd (range_loop (unreachable_downstream (JArr [JArr [encode_ID paste_a]]))
           ''http://dg'' fresh [paste_a])))) ''a'' = 1"
proof -
  let ?env = "unreachable_downstream (JArr [JArr [encode_ID paste_a]])"
  let ?w2 = "\<lparr>pastes = [(1, ''a'')], db_calls = 6, feed_calls = 0, posts = [], logs = []\<rparr>"
  let ?w3 = "\<lparr>pastes = [(1, ''a'')], db_calls = 6, feed_calls = 0,
       posts = [(''http://dg/event'', JStr ''a'')], logs = []\<rparr>"
  have c: "checkID ?env fresh (ID paste_a) = ((True, None), fresh\<lparr>db_calls := 2\<rparr>)"
    by (simp add: ledger_defs example_defs)
  have a: "addID ?env (fresh\<lparr>db_calls := 2\<rparr>) (ID paste_a) = (None, ?w2)"
    by (simp add: ledger_defs example_defs)
  have r: "ID paste_a \<in> set (paste_IDs ?w2)"
    by (simp add: paste_IDs_def paste_a_def)
  have s: "send ?env ?w2 paste_a ''http://dg'' = (Return (Some (Err ''connection refused'')), ?w3)"
    by (simp add: send_def post_def example_defs)
  have f: "forwards ?w3 ''a'' = 1" by (simp add: forwards_def)
  have i: "ID paste_a = ''a''" by (simp add: paste_a_def)
  note th = forward_failure_keeps_record [OF c a r s, of "[]" 2, unfolded i f]
  show ?thesis using th s by blast
qed

subsection \<open>C9: an empty outer array\<close>

text \<open>
  C9: when the retry loop ends with a response whose body is the empty array \<^verbatim>\<open>[]\<close>,
  \<^verbatim>\<open>getDaily\<close> panics with an index out of range. In general, for a body that decodes
  without error, it panics so exactly when the decoded outer sequence is empty, and
  returns the first inner sequence otherwise.
\<close>

theorem empty_outer_sequence_panics:
  assumes "retry env w 0 None None = (Return (Some r, err), w1)"
  shows "(Body r = Bytes (Document (JArr [])) \<longrightarrow>
            getDaily env w = (Panic IndexOutOfRange, w1))
       \<and> (Body r = Bytes c \<longrightarrow> Unmarshal c = Inr tempSlice \<longrightarrow>
            (getDaily env w = (Panic IndexOutOfRange, w1)) = (tempSlice = [])
            \<and> (tempSlice \<noteq> [] \<longrightarrow>
                 getDaily env w = (Return (Some \<lparr>Data = hd tempSlice\<rparr>, None), w1)))"
proof -
  have u: "Unmarshal (Document (JArr [])) = Inr []"
    by (simp add: Unmarshal_def decode_slice_def)
  show ?thesis using assms u
    by (auto simp: getDaily_def append_all_eq split: list.splits)
qed

text \<open>C9 for a process just started whose feed answers \<^verbatim>\<open>[]\<close>.\<close>

theorem empty_outer_sequence_panics_witness:
  "getDaily (answering (JArr [])) fresh = (Panic IndexOutOfRange, fresh\<lparr>feed_calls := 1\<rparr>)"
proof -
  let ?env = "answering (JArr [])"
  let ?r = "\<lparr>StatusCode = 200, Body = Bytes (Document (JArr []))\<rparr>"
  have "retry ?env fresh 0 None None = (Return (Some ?r, None), fresh\<lparr>feed_calls := Suc (feed_calls fresh)\<rparr>)"
    by (rule retry_first_answer) (simp_all add: answering_def)
  then have r: "retry ?env fresh 0 None None = (Return (Some ?r, None), fresh\<lparr>feed_calls := 1\<rparr>)"
    by (simp add: fresh_def)
  from empty_outer_sequence_panics [OF r, of "Document (JArr [])" "[]"]
  show ?thesis by simp
qed

subsection \<open>C10: no response at all\<close>

text \<open>
  C10: when all three attempts fail at the transport level, each leaving the response
  nil, \<^verbatim>\<open>getDaily\<close> reaches the code after the loop with a nil response and panics on
  it, after three requests and three log lines. So whenever \<^verbatim>\<open>getDaily\<close> returns at
  all, at least one of the three attempts produced a response.
\<close>

theorem transport_failures_reach_nil_response:
  "(feed env (feed_calls w) = (None, Some e0) \<longrightarrow>
    feed env (feed_calls w + 1) = (None, Some e1) \<longrightarrow>
    feed env (feed_calls w + 2) = (None, Some e2) \<longrightarrow>
      getDaily env w =
        (Panic NilDereference,
         w\<lparr>feed_calls := feed_calls w + 3,
           logs := logs w @ [HTTPRequestError e0, HTTPRequestError e1, HTTPRequestError e2]\<rparr>))
   \<and> (fst (getDaily env w) = Return x \<longrightarrow>
        fst (feed env (feed_calls w)) \<noteq> None
        \<or> fst (feed env (feed_calls w + 1)) \<noteq> None
        \<or> fst (feed env (feed_calls w + 2)) \<noteq> None)"
proof (intro conjI impI)
  assume "feed env (feed_calls w) = (None, Some e0)"
    and "feed env (feed_calls w + 1) = (None, Some e1)"
    and "feed env (feed_calls w + 2) = (None, Some e2)"
  from retry_three_errors [OF this]
  show "getDaily env w =
        (Panic NilDereference,
         w\<lparr>feed_calls := feed_calls w + 3,
           logs := logs w @ [HTTPRequestError e0, HTTPRequestError e1, HTTPRequestError e2]\<rparr>)"
    by (simp add: getDaily_def)
next
  assume g: "fst (getDaily env w) = Return x"
  show "fst (feed env (feed_calls w)) \<noteq> None
        \<or> fst (feed env (feed_calls w + 1)) \<noteq> None
        \<or> fst (feed env (feed_calls w + 2)) \<noteq> None"
  proof (rule ccontr)
    assume "\<not> ?thesis"
    then have "fst (retry env w 0 None None) = Panic NilDereference \<or>
         (\<exists>e. fst (retry env w 0 None None) = Return (None, e))"
      using retry_no_response [of env w] by simp
    then have "\<exists>p. fst (getDaily env w) = Panic p"
      by (cases "retry env w 0 None None") (auto simp: getDaily_def)
    then show False using g by auto
  qed
qed

text \<open>
  C10 for a feed that refuses every connection, and, for the second part, for a feed
  that answers \<^verbatim>\<open>[[]]\<close>.
\<close>

theorem transport_failures_reach_nil_response_witness:
  "getDaily unreachable_feed fresh =
     (Panic NilDereference,
      fresh\<lparr>feed_calls := 3,
        logs := [HTTPRequestError (Err ''connection refused''),
                 HTTPRequestError (Err ''connection refused''),
                 HTTPRequestError (Err ''connection refused'')]\<rparr>)
   \<and> fst (getDaily (answering (JArr [JArr []])) fresh) = Return (Some \<lparr>Data = []\<rparr>, None)
   \<and> fst (feed (answering (JArr [JArr []])) 0) \<noteq> None"
proof -
  have f: "feed unreachable_feed n = (None, Some (Err ''connection refused''))" for n
    by (simp add: unreachable_feed_def answering_def)
  have z: "feed_calls fresh = 0" "logs fresh = []" by (simp_all add: fresh_def)
  let ?env = "answering (JArr [JArr []])"
  let ?r = "\<lparr>StatusCode = 200, Body = Bytes (Document (JArr [JArr []]))\<rparr>"
  have "retry ?env fresh 0 None None = (Return (Some ?r, None), fresh\<lparr>feed_calls := Suc (feed_calls fresh)\<rparr>)"
    by (rule retry_first_answer) (simp_all add: answering_def)
  then have g: "fst (getDaily ?env fresh) = Return (Some \<lparr>Data = []\<rparr>, None)"
    by (simp add: getDaily_def Unmarshal_def decode_slice_def)
  have a: "fst (feed ?env 0) \<noteq> None" by (simp add: answering_def)
  from transport_failures_reach_nil_response
    [of unreachable_feed fresh "Err ''connection refused''" "Err ''connection refused''"
      "Err ''connection refused''" "(Some \<lparr>Data = []\<rparr>, None)"]
    transport_failures_reach_nil_response
    [of ?env fresh undefined undefined undefined "(Some \<lparr>Data = []\<rparr>, None)"]
    f z g a
  show ?thesis by simp
qed

end
